theory Spec2Isabelle
  imports Main "HOL-Library.Multiset"
begin

section \<open>Data model\<close>

text \<open>
  The library backend keeps two collections that matter here: books
  (\<^verbatim>\<open>src/models/Book.js\<close>) and borrow records (\<^verbatim>\<open>src/models/BorrowRecord.js\<close>).
  A JavaScript \<^verbatim>\<open>Date\<close> is its number of milliseconds since the epoch, an \<open>int\<close>.
  The copy counts, the renewal count and the fine are JavaScript numbers that the
  request validation and the arithmetic of the code keep integral; they are \<open>int\<close>, so
  that the lower bounds of the schema are properties to prove and not part of the type.
  An \<^verbatim>\<open>ObjectId\<close> is a \<open>nat\<close>.
  Every \<^verbatim>\<open>new Date()\<close> and \<^verbatim>\<open>Date.now()\<close> of one request reads the ambient clock;
  the model passes that reading as the explicit argument \<open>now\<close>, one reading
  for one request.
\<close>

type_synonym oid = nat
type_synonym date = int

datatype Status = Borrowed | Returned | Overdue | Lost

datatype Role = Admin | Member

text \<open>
  The book schema. The descriptive paths (title, author, isbn, genre and so on) are never
  written by the borrow, return and renew requests and are left out.
\<close>

record Book =
  totalCopies :: int
  availableCopies :: int
  borrowCount :: int
  isActive :: bool

text \<open>
  The borrow record schema, with its nested \<^verbatim>\<open>fine\<close> document. The free-text path
  \<^verbatim>\<open>notes\<close> and the timestamps that the store maintains are not read or written by
  any code modelled here and are left out.
\<close>

record Fine =
  amount :: int
  paid :: bool
  paidDate :: "date option"

record BorrowRecord =
  user :: oid
  book :: oid
  borrowDate :: date
  dueDate :: date
  returnDate :: "date option"
  status :: Status
  renewalCount :: int
  fine :: Fine

section \<open>Book methods\<close>

definition isAvailable :: "Book \<Rightarrow> bool" where
  "isAvailable b = (availableCopies b > 0 \<and> isActive b)"

text \<open>
  \<^verbatim>\<open>borrowCopy\<close> and \<^verbatim>\<open>returnCopy\<close> mutate the document and return a flag; the
  model returns the flag with the document after the call.
\<close>

definition borrowCopy :: "Book \<Rightarrow> bool \<times> Book" where
  "borrowCopy b =
     (if availableCopies b > 0
      then (True, b\<lparr>availableCopies := availableCopies b - 1,
                    borrowCount := borrowCount b + 1\<rparr>)
      else (False, b))"

definition returnCopy :: "Book \<Rightarrow> bool \<times> Book" where
  "returnCopy b =
     (if availableCopies b < totalCopies b
      then (True, b\<lparr>availableCopies := availableCopies b + 1\<rparr>)
      else (False, b))"

datatype copyOp = BorrowCopy | ReturnCopy

fun applyCopyOp :: "copyOp \<Rightarrow> Book \<Rightarrow> Book" where
  "applyCopyOp BorrowCopy b = snd (borrowCopy b)"
| "applyCopyOp ReturnCopy b = snd (returnCopy b)"

text \<open>The book after a sequence of calls, the first call first.\<close>

definition applyCopyOps :: "copyOp list \<Rightarrow> Book \<Rightarrow> Book" where
  "applyCopyOps ops b = fold applyCopyOp ops b"

definition copiesInRange :: "Book \<Rightarrow> bool" where
  "copiesInRange b = (0 \<le> availableCopies b \<and> availableCopies b \<le> totalCopies b)"

section \<open>Borrow record methods\<close>

definition msPerDay :: int where
  "msPerDay = 1000 * 60 * 60 * 24"

text \<open>
  \<^verbatim>\<open>Math.ceil(diffTime / (1000 * 60 * 60 * 24))\<close> on a whole number of milliseconds:
  the least integer not below the quotient.
\<close>

definition ceilDays :: "int \<Rightarrow> int" where
  "ceilDays diffTime = - ((- diffTime) div msPerDay)"

text \<open>The virtual \<^verbatim>\<open>isOverdue\<close>; it reads the clock.\<close>

definition isOverdue :: "date \<Rightarrow> BorrowRecord \<Rightarrow> bool" where
  "isOverdue now r =
     (if status r = Returned \<or> status r = Lost then False else now > dueDate r)"

text \<open>The virtual \<^verbatim>\<open>daysOverdue\<close>.\<close>

definition daysOverdue :: "date \<Rightarrow> BorrowRecord \<Rightarrow> int" where
  "daysOverdue now r =
     (if status r = Returned \<or> status r = Lost \<or> \<not> isOverdue now r then 0
      else ceilDays \<bar>now - dueDate r\<bar>)"

text \<open>\<^verbatim>\<open>calculateFine\<close> takes no argument: one unit for each day overdue at the clock reading.\<close>

definition calculateFine :: "date \<Rightarrow> BorrowRecord \<Rightarrow> int" where
  "calculateFine now r = daysOverdue now r * 1"

text \<open>
  The method \<^verbatim>\<open>returnBook\<close> assigns the return date and the status first and reads
  \<^verbatim>\<open>isOverdue\<close> afterwards, on the document it has just changed.
\<close>

definition returnBook :: "date \<Rightarrow> BorrowRecord \<Rightarrow> BorrowRecord" where
  "returnBook now r =
     (let r1 = r\<lparr>returnDate := Some now, status := Returned\<rparr>
      in if isOverdue now r1
         then r1\<lparr>fine := (fine r1)\<lparr>amount := calculateFine now r1\<rparr>\<rparr>
         else r1)"

text \<open>
  What a request can fail with. The controllers answer with a message and an HTTP status;
  each constructor stands for one of them:
  \<^item> \<open>NotFound\<close>: 'Book not found' or 'Borrow record not found', 404;
  \<^item> \<open>Unavailable\<close>: 'Book is not available for borrowing', 400;
  \<^item> \<open>DuplicateLoan\<close>: 'You have already borrowed this book', 400;
  \<^item> \<open>BorrowLimitReached\<close>: 'Borrowing limit reached (maximum 5 books)', 400;
  \<^item> \<open>Forbidden\<close>: 'Access denied', 403, or 'Admin access required';
  \<^item> \<open>AlreadyReturned\<close>: 'Book has already been returned', 400;
  \<^item> \<open>NotRenewable\<close>: 'Only borrowed or overdue books can be renewed', 400;
  \<^item> \<open>RenewalLimitReached\<close>: 'Maximum renewal limit reached', 400;
  \<^item> \<open>ValidationError\<close>: a schema validator rejected the document on save;
  \<^item> \<open>Unauthenticated\<close>: 'You must be logged in to perform this action';
  \<^item> \<open>ServerError\<close>: an uncaught exception (a property read on \<^verbatim>\<open>null\<close>).
\<close>

datatype error =
    NotFound | Unavailable | DuplicateLoan | BorrowLimitReached
  | Forbidden | AlreadyReturned | NotRenewable | RenewalLimitReached
  | ValidationError | Unauthenticated | ServerError

text \<open>The method \<^verbatim>\<open>renewBook\<close> throws before it changes anything.\<close>

definition renewBook :: "BorrowRecord \<Rightarrow> error + BorrowRecord" where
  "renewBook r =
     (if renewalCount r \<ge> 3 then Inl RenewalLimitReached
      else Inr (r\<lparr>dueDate := dueDate r + 14 * 24 * 60 * 60 * 1000,
                  renewalCount := renewalCount r + 1\<rparr>))"

text \<open>The \<^verbatim>\<open>pre('save')\<close> hook of the borrow record schema.\<close>

definition preSave :: "date \<Rightarrow> BorrowRecord \<Rightarrow> BorrowRecord" where
  "preSave now r =
     (if status r = Borrowed \<and> isOverdue now r then r\<lparr>status := Overdue\<rparr> else r)"

section \<open>The store\<close>

text \<open>
  The two collections. No request deletes a document, so a collection is a list and the
  identifier of a document is its position; \<^verbatim>\<open>findById\<close> of an unknown identifier
  is \<^verbatim>\<open>null\<close>.
\<close>

record Library =
  books :: "Book list"
  loans :: "BorrowRecord list"

definition findBook :: "oid \<Rightarrow> Library \<Rightarrow> Book option" where
  "findBook i s = (if i < length (books s) then Some (books s ! i) else None)"

definition findRecord :: "oid \<Rightarrow> Library \<Rightarrow> BorrowRecord option" where
  "findRecord i s = (if i < length (loans s) then Some (loans s ! i) else None)"

text \<open>
  The validators that the schemas declare on the modelled paths. \<^verbatim>\<open>save\<close> runs them
  on the document before the \<^verbatim>\<open>pre('save')\<close> hook and throws when one fails.
\<close>

definition validBook :: "Book \<Rightarrow> bool" where
  "validBook b =
     (totalCopies b \<ge> 1 \<and> availableCopies b \<ge> 0
      \<and> availableCopies b \<le> totalCopies b \<and> borrowCount b \<ge> 0)"

definition validRecord :: "BorrowRecord \<Rightarrow> bool" where
  "validRecord r =
     (dueDate r > borrowDate r
      \<and> (case returnDate r of None \<Rightarrow> True | Some d \<Rightarrow> d \<ge> borrowDate r)
      \<and> 0 \<le> renewalCount r \<and> renewalCount r \<le> 3
      \<and> amount (fine r) \<ge> 0)"

definition saveBook :: "oid \<Rightarrow> Book \<Rightarrow> Library \<Rightarrow> error + Library" where
  "saveBook i b s =
     (if validBook b then Inr (s\<lparr>books := (books s)[i := b]\<rparr>) else Inl ValidationError)"

definition saveRecord ::
  "date \<Rightarrow> oid \<Rightarrow> BorrowRecord \<Rightarrow> Library \<Rightarrow> error + (BorrowRecord \<times> Library)" where
  "saveRecord now i r s =
     (if validRecord r
      then (let r' = preSave now r in Inr (r', s\<lparr>loans := (loans s)[i := r']\<rparr>))
      else Inl ValidationError)"

text \<open>
  \<^verbatim>\<open>BorrowRecord.create\<close> fills the defaults of the schema (borrow date now, status
  Borrowed, no renewals, no fine), then saves the new document.
\<close>

definition newRecord :: "date \<Rightarrow> oid \<Rightarrow> oid \<Rightarrow> date \<Rightarrow> BorrowRecord" where
  "newRecord now userId bookId due =
     \<lparr>user = userId, book = bookId, borrowDate = now, dueDate = due,
      returnDate = None, status = Borrowed, renewalCount = 0,
      fine = \<lparr>amount = 0, paid = False, paidDate = None\<rparr>\<rparr>"

definition createRecord ::
  "date \<Rightarrow> BorrowRecord \<Rightarrow> Library \<Rightarrow> error + (BorrowRecord \<times> Library)" where
  "createRecord now r s =
     (if validRecord r
      then (let r' = preSave now r in Inr (r', s\<lparr>loans := loans s @ [r']\<rparr>))
      else Inl ValidationError)"

subsection \<open>Query filters\<close>

text \<open>
  The filter documents the code passes to \<^verbatim>\<open>findOne\<close>, \<^verbatim>\<open>find\<close> and
  \<^verbatim>\<open>countDocuments\<close>: a document of field conditions matches when all of them hold,
  \<^verbatim>\<open>$or\<close> matches when one of its documents does.
\<close>

datatype cond =
    UserIs oid | BookIs oid | StatusIs Status | StatusIn "Status list" | DueDateLt date

datatype query = Match "cond list" | Or "cond list list"

fun holds :: "cond \<Rightarrow> BorrowRecord \<Rightarrow> bool" where
  "holds (UserIs u) r = (user r = u)"
| "holds (BookIs b) r = (book r = b)"
| "holds (StatusIs st) r = (status r = st)"
| "holds (StatusIn sts) r = (status r \<in> set sts)"
| "holds (DueDateLt d) r = (dueDate r < d)"

fun matches :: "query \<Rightarrow> BorrowRecord \<Rightarrow> bool" where
  "matches (Match cs) r = list_all (\<lambda>c. holds c r) cs"
| "matches (Or ds) r = list_ex (\<lambda>cs. list_all (\<lambda>c. holds c r) cs) ds"

definition findOne :: "query \<Rightarrow> BorrowRecord list \<Rightarrow> BorrowRecord option" where
  "findOne q rs = List.find (matches q) rs"

definition countDocuments :: "query \<Rightarrow> BorrowRecord list \<Rightarrow> nat" where
  "countDocuments q rs = length (filter (matches q) rs)"

section \<open>Controllers\<close>

text \<open>
  A handler takes the clock reading, the verified identity of the caller, its
  arguments and the store; it returns the store it leaves behind and either the error it
  answers with or the borrow record it sends back. A handler that fails half-way leaves
  the writes it has already made.
\<close>

type_synonym response = "Library \<times> (error + BorrowRecord)"

subsection \<open>Borrow\<close>

text \<open>
  \<^verbatim>\<open>borrowBook\<close> of the borrow controller. The optional due date of the request
  body is \<open>None\<close> when the field is absent. The validators of the route, which run
  before the controller and reject a malformed body, are not part of it.
\<close>

definition borrowBook :: "date \<Rightarrow> oid \<Rightarrow> oid \<Rightarrow> date option \<Rightarrow> Library \<Rightarrow> response" where
  "borrowBook now userId bookId dueDateArg s =
     (case findBook bookId s of
        None \<Rightarrow> (s, Inl NotFound)
      | Some b \<Rightarrow>
          if \<not> isActive b then (s, Inl NotFound)
          else if \<not> isAvailable b then (s, Inl Unavailable)
          else if findOne (Match [UserIs userId, BookIs bookId, StatusIn [Borrowed, Overdue]])
                    (loans s) \<noteq> None
          then (s, Inl DuplicateLoan)
          else if countDocuments (Match [UserIs userId, StatusIn [Borrowed, Overdue]])
                    (loans s) \<ge> 5
          then (s, Inl BorrowLimitReached)
          else
            (let borrowDueDate =
                   (case dueDateArg of
                      Some d \<Rightarrow> d
                    | None \<Rightarrow> now + 14 * 24 * 60 * 60 * 1000)
             in case createRecord now (newRecord now userId bookId borrowDueDate) s of
                  Inl e \<Rightarrow> (s, Inl e)
                | Inr (borrowRecord, s1) \<Rightarrow>
                    (case saveBook bookId (snd (borrowCopy b)) s1 of
                       Inl e \<Rightarrow> (s1, Inl e)
                     | Inr s2 \<Rightarrow> (s2, Inr borrowRecord))))"

text \<open>
  The GraphQL mutation \<^verbatim>\<open>borrowBook\<close>: the caller may be absent; the answer is the
  new record read back from the store.
\<close>

definition borrowBook_mutation ::
  "date \<Rightarrow> (oid \<times> Role) option \<Rightarrow> oid \<Rightarrow> date option \<Rightarrow> Library \<Rightarrow> response" where
  "borrowBook_mutation now caller bookId dueDateArg s =
     (case caller of
        None \<Rightarrow> (s, Inl Unauthenticated)
      | Some (userId, role) \<Rightarrow>
         (case findBook bookId s of
            None \<Rightarrow> (s, Inl NotFound)
          | Some b \<Rightarrow>
              if \<not> isActive b then (s, Inl NotFound)
              else if \<not> isAvailable b then (s, Inl Unavailable)
              else if findOne (Match [UserIs userId, BookIs bookId, StatusIn [Borrowed, Overdue]])
                        (loans s) \<noteq> None
              then (s, Inl DuplicateLoan)
              else if countDocuments (Match [UserIs userId, StatusIn [Borrowed, Overdue]])
                        (loans s) \<ge> 5
              then (s, Inl BorrowLimitReached)
              else
                (let dueDate' =
                       (case dueDateArg of
                          Some d \<Rightarrow> d
                        | None \<Rightarrow> now + 14 * 24 * 60 * 60 * 1000)
                 in case createRecord now (newRecord now userId bookId dueDate') s of
                      Inl e \<Rightarrow> (s, Inl e)
                    | Inr (borrowRecord, s1) \<Rightarrow>
                        (case saveBook bookId (snd (borrowCopy b)) s1 of
                           Inl e \<Rightarrow> (s1, Inl e)
                         | Inr s2 \<Rightarrow>
                             (case findRecord (length (loans s)) s2 of
                                None \<Rightarrow> (s2, Inl ServerError)
                              | Some r \<Rightarrow> (s2, Inr r))))))"

subsection \<open>Return\<close>

text \<open>
  \<^verbatim>\<open>returnBook\<close> of the borrow controller. The record is saved before the book is
  looked up; a missing book is a read of \<^verbatim>\<open>_id\<close> on \<^verbatim>\<open>null\<close>.
\<close>

definition returnBook_controller :: "date \<Rightarrow> oid \<Rightarrow> Role \<Rightarrow> oid \<Rightarrow> Library \<Rightarrow> response" where
  "returnBook_controller now userId role recordId s =
     (case findRecord recordId s of
        None \<Rightarrow> (s, Inl NotFound)
      | Some borrowRecord \<Rightarrow>
          if user borrowRecord \<noteq> userId \<and> role \<noteq> Admin then (s, Inl Forbidden)
          else if status borrowRecord = Returned then (s, Inl AlreadyReturned)
          else
            (case saveRecord now recordId (returnBook now borrowRecord) s of
               Inl e \<Rightarrow> (s, Inl e)
             | Inr (saved, s1) \<Rightarrow>
                 (case findBook (book saved) s1 of
                    None \<Rightarrow> (s1, Inl ServerError)
                  | Some b \<Rightarrow>
                      (case saveBook (book saved) (snd (returnCopy b)) s1 of
                         Inl e \<Rightarrow> (s1, Inl e)
                       | Inr s2 \<Rightarrow> (s2, Inr saved)))))"

subsection \<open>Renew\<close>

text \<open>
  \<^verbatim>\<open>renewBook\<close> of the borrow controller. Only the owner may renew. The
  \<^verbatim>\<open>try\<close> block turns the exception of the method, and one of \<^verbatim>\<open>save\<close>, into an
  error answer.
\<close>

definition renewBook_controller :: "date \<Rightarrow> oid \<Rightarrow> oid \<Rightarrow> Library \<Rightarrow> response" where
  "renewBook_controller now userId recordId s =
     (case findRecord recordId s of
        None \<Rightarrow> (s, Inl NotFound)
      | Some borrowRecord \<Rightarrow>
          if user borrowRecord \<noteq> userId then (s, Inl Forbidden)
          else if status borrowRecord \<noteq> Borrowed \<and> status borrowRecord \<noteq> Overdue
          then (s, Inl NotRenewable)
          else
            (case renewBook borrowRecord of
               Inl e \<Rightarrow> (s, Inl e)
             | Inr renewed \<Rightarrow>
                 (case saveRecord now recordId renewed s of
                    Inl e \<Rightarrow> (s, Inl e)
                  | Inr (saved, s1) \<Rightarrow> (s1, Inr saved))))"

subsection \<open>Overdue books\<close>






subsection \<open>Sequences of requests\<close>

text \<open>
  The three requests that write borrow records, each with the clock reading at which it
  is served, and the store after a sequence of them.
\<close>

datatype request =
    Borrow oid oid "date option"
  | Return oid Role oid
  | Renew oid oid

fun serve :: "date \<times> request \<Rightarrow> Library \<Rightarrow> Library" where
  "serve (now, Borrow userId bookId dueDateArg) s = fst (borrowBook now userId bookId dueDateArg s)"
| "serve (now, Return userId role recordId) s = fst (returnBook_controller now userId role recordId s)"
| "serve (now, Renew userId recordId) s = fst (renewBook_controller now userId recordId s)"

definition serveAll :: "(date \<times> request) list \<Rightarrow> Library \<Rightarrow> Library" where
  "serveAll reqs s = fold serve reqs s"

section \<open>Invariants and example data\<close>

text \<open>No record has been renewed more than three times.\<close>

definition renewalsBounded :: "Library \<Rightarrow> bool" where
  "renewalsBounded s = list_all (\<lambda>r. renewalCount r \<le> 3) (loans s)"

text \<open>
  A loan is active while its status is Borrowed or Overdue; a user holds at most one
  active loan of a book when the (user, book) pairs of the active records are distinct.
\<close>

definition activeLoan :: "BorrowRecord \<Rightarrow> bool" where
  "activeLoan r = (status r = Borrowed \<or> status r = Overdue)"

definition atMostOneActive :: "Library \<Rightarrow> bool" where
  "atMostOneActive s = distinct (map (\<lambda>r. (user r, book r)) (filter activeLoan (loans s)))"

text \<open>
  The copies of book \<open>i\<close> that are out: the records of that book not yet Returned. A
  store is consistent when its documents satisfy their schemas, every record refers to a
  book of the store, and the available copies of each book and its copies out add up to
  its total.
\<close>

definition unreturned :: "oid \<Rightarrow> BorrowRecord \<Rightarrow> bool" where
  "unreturned i r = (book r = i \<and> status r \<noteq> Returned)"

definition copiesOut :: "oid \<Rightarrow> Library \<Rightarrow> int" where
  "copiesOut i s = int (length (filter (unreturned i) (loans s)))"

definition consistent :: "Library \<Rightarrow> bool" where
  "consistent s =
     (list_all validBook (books s) \<and> list_all validRecord (loans s)
      \<and> list_all (\<lambda>r. book r < length (books s)) (loans s)
      \<and> list_all (\<lambda>i. availableCopies (books s ! i) + copiesOut i s = totalCopies (books s ! i))
           [0..<length (books s)])"

text \<open>
  Example documents: a loan taken at time 0 and due after fourteen days, a book whose only
  copy is out, a book with one of two copies on the shelf, and stores built from them.
\<close>

definition exampleLoan :: BorrowRecord where
  "exampleLoan = newRecord 0 0 0 (14 * msPerDay)"

definition exampleBook :: Book where
  "exampleBook = \<lparr>totalCopies = 1, availableCopies = 0, borrowCount = 1, isActive = True\<rparr>"

definition openBook :: Book where
  "openBook = \<lparr>totalCopies = 2, availableCopies = 1, borrowCount = 1, isActive = True\<rparr>"

definition exampleLibrary :: Library where
  "exampleLibrary = \<lparr>books = [exampleBook], loans = [exampleLoan]\<rparr>"

definition busyLibrary :: Library where
  "busyLibrary =
     \<lparr>books = replicate 6 exampleBook,
      loans = map (\<lambda>k. newRecord 0 7 k (14 * msPerDay)) [1, 2, 3, 4, 5]\<rparr>"

definition lostLibrary :: Library where
  "lostLibrary = \<lparr>books = [openBook], loans = [exampleLoan\<lparr>status := Lost\<rparr>]\<rparr>"

section \<open>Auxiliary facts\<close>

lemma findBook_Some: "findBook i s = Some b \<longleftrightarrow> i < length (books s) \<and> books s ! i = b"
  by (auto simp: findBook_def)

lemma findRecord_Some:
  "findRecord i s = Some r \<longleftrightarrow> i < length (loans s) \<and> loans s ! i = r"
  by (auto simp: findRecord_def)

lemma returnBook_eq: "returnBook now r = r\<lparr>returnDate := Some now, status := Returned\<rparr>"
  by (simp add: returnBook_def isOverdue_def Let_def)

lemma preSave_fields:
  "renewalCount (preSave now r) = renewalCount r" "user (preSave now r) = user r"
  "book (preSave now r) = book r" "fine (preSave now r) = fine r"
  "dueDate (preSave now r) = dueDate r"
  by (simp_all add: preSave_def)

lemma list_all_update:
  "list_all P xs \<Longrightarrow> P x \<Longrightarrow> list_all P (xs[i := x])"
  by (induction xs arbitrary: i) (auto split: nat.splits)

lemma borrowBook_mutation_eq:
  "borrowBook_mutation now (Some (userId, role)) bookId d s = borrowBook now userId bookId d s"
  by (auto simp add: borrowBook_mutation_def borrowBook_def createRecord_def saveBook_def
      findRecord_def Let_def nth_append
      split: option.splits sum.splits prod.splits)

lemma matches_duplicate:
  "matches (Match [UserIs u, BookIs b, StatusIn [Borrowed, Overdue]]) r
     \<longleftrightarrow> user r = u \<and> book r = b \<and> activeLoan r"
  by (auto simp add: activeLoan_def)

lemma findOne_None: "findOne q rs = None \<longleftrightarrow> (\<forall>r\<in>set rs. \<not> matches q r)"
  by (auto simp add: findOne_def find_None_iff)

lemma renewBook_Inr:
  "renewBook r = Inr r' \<longleftrightarrow>
     renewalCount r < 3
     \<and> r' = r\<lparr>dueDate := dueDate r + 14 * msPerDay, renewalCount := renewalCount r + 1\<rparr>"
  by (auto simp add: renewBook_def msPerDay_def)

lemma borrowBook_loans:
  "loans (fst (borrowBook now u bk d s)) = loans s
   \<or> loans (fst (borrowBook now u bk d s)) =
       loans s @ [preSave now (newRecord now u bk (case d of Some x \<Rightarrow> x | None \<Rightarrow> now + 14 * 24 * 60 * 60 * 1000))]"
  by (auto simp add: borrowBook_def createRecord_def saveBook_def Let_def
      split: option.splits sum.splits if_splits prod.splits)

lemma returnBook_controller_loans:
  "loans (fst (returnBook_controller now u role i s)) = loans s
   \<or> (\<exists>r. findRecord i s = Some r
        \<and> loans (fst (returnBook_controller now u role i s)) =
            (loans s)[i := r\<lparr>returnDate := Some now, status := Returned\<rparr>])"
  by (auto simp add: returnBook_controller_def saveRecord_def saveBook_def Let_def
      returnBook_eq preSave_def
      split: option.splits sum.splits if_splits prod.splits)

lemma renewBook_controller_loans:
  "loans (fst (renewBook_controller now u i s)) = loans s
   \<or> (\<exists>r r'. findRecord i s = Some r \<and> renewBook r = Inr r'
        \<and> loans (fst (renewBook_controller now u i s)) = (loans s)[i := preSave now r'])"
  by (auto simp add: renewBook_controller_def saveRecord_def Let_def
      split: option.splits sum.splits if_splits prod.splits)

lemma filter_update_count:
  "k < length xs \<Longrightarrow>
     length (filter P (xs[k := y])) + (if P (xs ! k) then 1 else 0) =
       length (filter P xs) + (if P y then 1 else 0)"
proof (induction xs arbitrary: k)
  case Nil
  then show ?case by simp
next
  case (Cons x xs)
  show ?case
  proof (cases k)
    case 0
    then show ?thesis by simp
  next
    case (Suc j)
    with Cons.prems have "j < length xs" by simp
    from Cons.IH [OF this] Suc show ?thesis by simp
  qed
qed

lemma validRecord_preSave: "validRecord (preSave now r) = validRecord r"
  by (auto simp add: preSave_def validRecord_def split: option.splits)

lemma status_preSave_new:
  "status (preSave now (newRecord now' u bk due)) \<noteq> Returned"
  by (simp add: preSave_def newRecord_def)

section \<open>The copy-count invariant\<close>

lemma applyCopyOp_inRange:
  "copiesInRange b \<Longrightarrow> copiesInRange (applyCopyOp c b)"
  by (cases c) (auto simp: copiesInRange_def borrowCopy_def returnCopy_def)

lemma applyCopyOps_inRange:
  "copiesInRange b \<Longrightarrow> copiesInRange (applyCopyOps ops b)"
  unfolding applyCopyOps_def
  by (induction ops arbitrary: b) (simp_all add: applyCopyOp_inRange)

text \<open>
  Claim C1. A book with \<open>0 \<le> availableCopies \<le> totalCopies\<close> keeps that range after
  every step of any sequence of \<^verbatim>\<open>borrowCopy\<close> and \<^verbatim>\<open>returnCopy\<close> calls: the range
  holds after each prefix of the sequence. \<^verbatim>\<open>borrowCopy\<close> takes a copy only when one
  is available, \<^verbatim>\<open>returnCopy\<close> gives one back only below the total, and neither
  changes the total.
\<close>

theorem copies_invariant:
  assumes "copiesInRange b"
  shows "copiesInRange (applyCopyOps (take k ops) b)
       \<and> totalCopies (applyCopyOps (take k ops) b) = totalCopies b"
proof -
  have total: "totalCopies (applyCopyOps xs c) = totalCopies c" for xs c
    unfolding applyCopyOps_def
  proof (induction xs arbitrary: c)
    case Nil
    show ?case by simp
  next
    case (Cons x xs)
    have "totalCopies (applyCopyOp x c) = totalCopies c"
      by (cases x) (simp_all add: borrowCopy_def returnCopy_def)
    with Cons show ?case by simp
  qed
  show ?thesis
    using assms applyCopyOps_inRange [of b "take k ops"] total [of "take k ops" b]
    by simp
qed

theorem copies_invariant_witness:
  "copiesInRange \<lparr>totalCopies = 2, availableCopies = 1, borrowCount = 0, isActive = True\<rparr>
   \<and> copiesInRange (applyCopyOps (take 3 [BorrowCopy, BorrowCopy, ReturnCopy, ReturnCopy])
        \<lparr>totalCopies = 2, availableCopies = 1, borrowCount = 0, isActive = True\<rparr>)
   \<and> availableCopies (applyCopyOps (take 3 [BorrowCopy, BorrowCopy, ReturnCopy, ReturnCopy])
        \<lparr>totalCopies = 2, availableCopies = 1, borrowCount = 0, isActive = True\<rparr>) = 1"
proof -
  have h: "copiesInRange \<lparr>totalCopies = 2, availableCopies = 1, borrowCount = 0, isActive = True\<rparr>"
    by (simp add: copiesInRange_def)
  have v: "availableCopies (applyCopyOps (take 3 [BorrowCopy, BorrowCopy, ReturnCopy, ReturnCopy])
        \<lparr>totalCopies = 2, availableCopies = 1, borrowCount = 0, isActive = True\<rparr>) = 1"
    by (simp add: applyCopyOps_def borrowCopy_def returnCopy_def)
  from copies_invariant [OF h, of 3 "[BorrowCopy, BorrowCopy, ReturnCopy, ReturnCopy]"] h v
  show ?thesis by blast
qed

section \<open>Consistent stores\<close>

text \<open>
  A store of valid books with all copies on the shelf and no borrow record is consistent,
  and every borrow, return and renew request takes a consistent store to a consistent
  store, whether it succeeds or fails. In a consistent store a copy is out for every
  record that is not yet Returned.
\<close>

lemma consistent_iff:
  "consistent s \<longleftrightarrow>
     (\<forall>b\<in>set (books s). validBook b) \<and> (\<forall>r\<in>set (loans s). validRecord r)
     \<and> (\<forall>r\<in>set (loans s). book r < length (books s))
     \<and> (\<forall>i<length (books s).
           availableCopies (books s ! i) + copiesOut i s = totalCopies (books s ! i))"
  by (auto simp add: consistent_def list_all_iff)

lemma consistent_initial:
  assumes "list_all (\<lambda>b. validBook b \<and> availableCopies b = totalCopies b) bs"
  shows "consistent \<lparr>books = bs, loans = []\<rparr>"
  using assms by (auto simp add: consistent_iff copiesOut_def list_all_iff)

lemma consistent_copy_out:
  assumes "consistent s" and "findRecord i s = Some r" and "status r \<noteq> Returned"
  shows "findBook (book r) s = Some (books s ! book r) \<and> validBook (books s ! book r)
       \<and> validRecord r
       \<and> availableCopies (books s ! book r) < totalCopies (books s ! book r)"
proof -
  from assms(2) have mem: "r \<in> set (loans s)"
    by (auto simp add: findRecord_Some)
  with assms(1) have len: "book r < length (books s)" and vr: "validRecord r"
    by (auto simp add: consistent_iff)
  from mem assms(3) have "r \<in> set (filter (unreturned (book r)) (loans s))"
    by (simp add: unreturned_def)
  then have "0 < length (filter (unreturned (book r)) (loans s))"
    by (rule length_pos_if_in_set)
  then have "0 < copiesOut (book r) s"
    by (simp add: copiesOut_def)
  moreover from assms(1) len
  have "availableCopies (books s ! book r) + copiesOut (book r) s = totalCopies (books s ! book r)"
    by (simp add: consistent_iff)
  ultimately have "availableCopies (books s ! book r) < totalCopies (books s ! book r)"
    by simp
  moreover from assms(1) len have "validBook (books s ! book r)"
    by (simp add: consistent_iff)
  ultimately show ?thesis
    using len vr by (simp add: findBook_def)
qed

lemma copiesOut_update:
  assumes "k < length (loans s)"
  shows "copiesOut i (s\<lparr>loans := (loans s)[k := y]\<rparr>) + (if unreturned i (loans s ! k) then 1 else 0)
       = copiesOut i s + (if unreturned i y then 1 else 0)"
  using filter_update_count [OF assms, of "unreturned i" y]
  by (auto simp add: copiesOut_def split: if_splits)

lemma borrowBook_consistent:
  assumes c: "consistent s"
  shows "consistent (fst (borrowBook now u bk d s))"
proof (cases "\<exists>b. findBook bk s = Some b \<and> isActive b \<and> isAvailable b
    \<and> findOne (Match [UserIs u, BookIs bk, StatusIn [Borrowed, Overdue]]) (loans s) = None
    \<and> \<not> countDocuments (Match [UserIs u, StatusIn [Borrowed, Overdue]]) (loans s) \<ge> 5
    \<and> validRecord (newRecord now u bk (case d of Some x \<Rightarrow> x | None \<Rightarrow> now + 14 * 24 * 60 * 60 * 1000))")
  case False
  then have "fst (borrowBook now u bk d s) = s"
    by (auto simp add: borrowBook_def createRecord_def Let_def split: option.splits)
  with c show ?thesis by simp
next
  case True
  let ?r = "preSave now (newRecord now u bk (case d of Some x \<Rightarrow> x | None \<Rightarrow> now + 14 * 24 * 60 * 60 * 1000))"
  from True obtain b where b: "findBook bk s = Some b" "isActive b" "isAvailable b"
    and nodup: "findOne (Match [UserIs u, BookIs bk, StatusIn [Borrowed, Overdue]]) (loans s) = None"
    and under: "\<not> countDocuments (Match [UserIs u, StatusIn [Borrowed, Overdue]]) (loans s) \<ge> 5"
    and v: "validRecord (newRecord now u bk (case d of Some x \<Rightarrow> x | None \<Rightarrow> now + 14 * 24 * 60 * 60 * 1000))"
    by blast
  let ?b = "b\<lparr>availableCopies := availableCopies b - 1, borrowCount := borrowCount b + 1\<rparr>"
  from b(1) have len: "bk < length (books s)" and bv: "books s ! bk = b"
    by (simp_all add: findBook_Some)
  from c len bv have vb: "validBook b"
    by (auto simp add: consistent_iff)
  from b(3) have pos: "availableCopies b > 0"
    by (simp add: isAvailable_def)
  have vb': "validBook ?b"
    using vb pos by (simp add: validBook_def)
  have res: "fst (borrowBook now u bk d s) =
      s\<lparr>loans := loans s @ [?r], books := (books s)[bk := ?b]\<rparr>"
    using b nodup under v vb' pos
    by (simp add: borrowBook_def createRecord_def saveBook_def borrowCopy_def Let_def)
  have rb: "book ?r = bk"
    by (simp add: preSave_fields newRecord_def)
  have rs: "status ?r \<noteq> Returned"
    by (rule status_preSave_new)
  have rv: "validRecord ?r"
    using v by (simp only: validRecord_preSave)
  have out: "copiesOut i (s\<lparr>loans := loans s @ [?r], books := (books s)[bk := ?b]\<rparr>) =
      copiesOut i s + (if i = bk then 1 else 0)" for i
    using rb rs by (auto simp add: copiesOut_def unreturned_def)
  have "consistent (s\<lparr>loans := loans s @ [?r], books := (books s)[bk := ?b]\<rparr>)"
    unfolding consistent_iff
  proof (intro conjI)
    show "\<forall>x\<in>set (books (s\<lparr>loans := loans s @ [?r], books := (books s)[bk := ?b]\<rparr>)). validBook x"
      using c vb' by (auto simp add: consistent_iff dest: set_update_subset_insert [THEN subsetD])
    show "\<forall>x\<in>set (loans (s\<lparr>loans := loans s @ [?r], books := (books s)[bk := ?b]\<rparr>)). validRecord x"
      using c rv by (auto simp add: consistent_iff)
    show "\<forall>x\<in>set (loans (s\<lparr>loans := loans s @ [?r], books := (books s)[bk := ?b]\<rparr>)).
        book x < length (books (s\<lparr>loans := loans s @ [?r], books := (books s)[bk := ?b]\<rparr>))"
      using c rb len by (auto simp add: consistent_iff)
    show "\<forall>i<length (books (s\<lparr>loans := loans s @ [?r], books := (books s)[bk := ?b]\<rparr>)).
        availableCopies (books (s\<lparr>loans := loans s @ [?r], books := (books s)[bk := ?b]\<rparr>) ! i)
        + copiesOut i (s\<lparr>loans := loans s @ [?r], books := (books s)[bk := ?b]\<rparr>)
        = totalCopies (books (s\<lparr>loans := loans s @ [?r], books := (books s)[bk := ?b]\<rparr>) ! i)"
      unfolding out using c bv by (auto simp add: consistent_iff nth_list_update)
  qed
  with res show ?thesis by simp
qed

lemma returnBook_controller_consistent:
  assumes c: "consistent s"
  shows "consistent (fst (returnBook_controller now u role k s))"
proof (cases "\<exists>r. findRecord k s = Some r \<and> \<not> (user r \<noteq> u \<and> role \<noteq> Admin)
    \<and> status r \<noteq> Returned \<and> validRecord (returnBook now r)")
  case False
  then have "fst (returnBook_controller now u role k s) = s"
    by (auto simp add: returnBook_controller_def saveRecord_def split: option.splits)
  with c show ?thesis by simp
next
  case True
  then obtain r where r: "findRecord k s = Some r" "\<not> (user r \<noteq> u \<and> role \<noteq> Admin)"
    "status r \<noteq> Returned" and v: "validRecord (returnBook now r)"
    by blast
  let ?r = "r\<lparr>returnDate := Some now, status := Returned\<rparr>"
  let ?b = "books s ! book r"
  let ?b' = "?b\<lparr>availableCopies := availableCopies ?b + 1\<rparr>"
  let ?s1 = "s\<lparr>loans := (loans s)[k := ?r]\<rparr>"
  let ?s2 = "s\<lparr>loans := (loans s)[k := ?r], books := (books s)[book r := ?b']\<rparr>"
  from r(1) have klen: "k < length (loans s)" and kval: "loans s ! k = r"
    by (simp_all add: findRecord_Some)
  from consistent_copy_out [OF c r(1) r(3)]
  have fb: "findBook (book r) s = Some ?b" and vb: "validBook ?b"
    and out: "availableCopies ?b < totalCopies ?b"
    by simp_all
  from fb have blen: "book r < length (books s)"
    by (simp add: findBook_Some)
  have v': "validRecord ?r"
    using v by (simp add: returnBook_eq)
  have vb': "validBook ?b'"
    using vb out by (simp add: validBook_def)
  have sv: "saveRecord now k (returnBook now r) s = Inr (?r, ?s1)"
    using v' by (simp add: saveRecord_def returnBook_eq preSave_def Let_def)
  have fb1: "findBook (book ?r) ?s1 = Some ?b"
    using blen by (simp add: findBook_def)
  have res: "fst (returnBook_controller now u role k s) = ?s2"
    using r sv fb1 vb' out
    by (auto simp add: returnBook_controller_def saveBook_def returnCopy_def)
  have cnt: "copiesOut i ?s2 + (if i = book r then 1 else 0) = copiesOut i s" for i
    using copiesOut_update [OF klen, of i ?r] r(3) kval
    by (auto simp add: copiesOut_def unreturned_def split: if_splits)
  have "consistent ?s2"
    unfolding consistent_iff
  proof (intro conjI)
    show "\<forall>x\<in>set (books ?s2). validBook x"
      using c vb' by (auto simp add: consistent_iff dest: set_update_subset_insert [THEN subsetD])
    show "\<forall>x\<in>set (loans ?s2). validRecord x"
      using c v' by (auto simp add: consistent_iff dest: set_update_subset_insert [THEN subsetD])
    show "\<forall>x\<in>set (loans ?s2). book x < length (books ?s2)"
      using c blen by (auto simp add: consistent_iff dest: set_update_subset_insert [THEN subsetD])
    show "\<forall>i<length (books ?s2).
        availableCopies (books ?s2 ! i) + copiesOut i ?s2 = totalCopies (books ?s2 ! i)"
    proof (intro allI impI)
      fix i assume "i < length (books ?s2)"
      then have i: "i < length (books s)" by simp
      with c have acc: "availableCopies (books s ! i) + copiesOut i s = totalCopies (books s ! i)"
        by (simp add: consistent_iff)
      show "availableCopies (books ?s2 ! i) + copiesOut i ?s2 = totalCopies (books ?s2 ! i)"
        using acc cnt [of i] i by (cases "i = book r") (simp_all add: nth_list_update)
    qed
  qed
  with res show ?thesis by simp
qed

lemma renewBook_controller_consistent:
  assumes c: "consistent s"
  shows "consistent (fst (renewBook_controller now u k s))"
proof -
  from renewBook_controller_loans [of now u k s]
  consider "loans (fst (renewBook_controller now u k s)) = loans s"
    | r r' where "findRecord k s = Some r" "renewBook r = Inr r'"
        "loans (fst (renewBook_controller now u k s)) = (loans s)[k := preSave now r']"
    by blast
  moreover have bks: "books (fst (renewBook_controller now u k s)) = books s"
    by (auto simp add: renewBook_controller_def saveRecord_def Let_def
        split: option.splits sum.splits prod.splits)
  ultimately show ?thesis
  proof cases
    case 1
    with c bks show ?thesis
      by (simp add: consistent_iff copiesOut_def)
  next
    case 2
    let ?s' = "fst (renewBook_controller now u k s)"
    let ?r = "preSave now r'"
    from 2(1) have klen: "k < length (loans s)" and kval: "loans s ! k = r"
      by (simp_all add: findRecord_Some)
    have changed: "loans ?s' \<noteq> loans s \<Longrightarrow> validRecord r' \<and> (status r = Borrowed \<or> status r = Overdue)"
      using 2(1,2)
      by (auto simp add: renewBook_controller_def saveRecord_def Let_def
          split: option.splits sum.splits prod.splits if_splits)
    show ?thesis
    proof (cases "loans ?s' = loans s")
      case True
      with c bks show ?thesis
        by (simp add: consistent_iff copiesOut_def)
    next
      case False
      with changed have vr: "validRecord r'" and st: "status r = Borrowed \<or> status r = Overdue"
        by simp_all
      from 2(2) have r': "book r' = book r" "status r' = status r"
        by (auto simp add: renewBook_Inr)
      have bk: "book ?r = book r"
        using r' by (simp add: preSave_fields)
      have stn: "status ?r \<noteq> Returned" "status r \<noteq> Returned"
        using r' st by (auto simp add: preSave_def)
      have same: "unreturned i ?r = unreturned i r" for i
        using bk stn by (simp add: unreturned_def)
      have cnt: "copiesOut i ?s' = copiesOut i s" for i
        using filter_update_count [OF klen, of "unreturned i" ?r] same [of i] kval 2(3)
        by (simp add: copiesOut_def)
      from c klen kval have "book r < length (books s)"
        by (auto simp add: consistent_iff)
      with c vr bks 2(3) bk show ?thesis
        unfolding consistent_iff cnt
        by (auto simp add: validRecord_preSave dest!: set_update_subset_insert [THEN subsetD])
    qed
  qed
qed

lemma serve_consistent: "consistent s \<Longrightarrow> consistent (serve q s)"
proof (cases q)
  case (Pair now req)
  assume "consistent s"
  then show ?thesis
    unfolding Pair
    by (cases req)
      (simp_all add: borrowBook_consistent returnBook_controller_consistent
        renewBook_controller_consistent)
qed

lemma serveAll_consistent: "consistent s \<Longrightarrow> consistent (serveAll reqs s)"
  unfolding serveAll_def
  by (induction reqs arbitrary: s) (simp_all add: serve_consistent)

section \<open>Returning a loan\<close>

text \<open>
  Claim C2. Returning a loan that is overdue at the moment of return should set the
  return date to now, the status to Returned and the fine to one unit for each day
  between the due date and the return, rounded up: five units for a loan due five days
  ago.

  The code sets the return date and the status, but not the fine. The method assigns
  \<^verbatim>\<open>status = 'Returned'\<close> before it tests \<^verbatim>\<open>isOverdue\<close>, and that virtual is false
  for a returned record, so the branch that would store \<^verbatim>\<open>calculateFine()\<close> is never
  taken. For the example loan, due on day 14 and returned on day 19, the loan is overdue
  and the fine computed before the return is 5, yet the record stored and sent back has
  status Returned, return date day 19 and fine 0.
\<close>

theorem return_overdue_fine_unset:
  "isOverdue (19 * msPerDay) exampleLoan
   \<and> calculateFine (19 * msPerDay) exampleLoan = 5
   \<and> returnBook_controller (19 * msPerDay) 0 Member 0 exampleLibrary =
       (\<lparr>books = [exampleBook\<lparr>availableCopies := 1\<rparr>],
         loans = [exampleLoan\<lparr>returnDate := Some (19 * msPerDay), status := Returned\<rparr>]\<rparr>,
        Inr (exampleLoan\<lparr>returnDate := Some (19 * msPerDay), status := Returned\<rparr>))
   \<and> amount (fine (exampleLoan\<lparr>returnDate := Some (19 * msPerDay), status := Returned\<rparr>)) = 0"
  by (simp add: returnBook_controller_def findRecord_def findBook_def exampleLibrary_def
      exampleLoan_def exampleBook_def newRecord_def returnBook_eq saveRecord_def saveBook_def
      validRecord_def validBook_def preSave_def returnCopy_def isOverdue_def Let_def
      calculateFine_def daysOverdue_def ceilDays_def msPerDay_def)

text \<open>
  Two returns of a loan that is still out, from the facts about the record and its book
  that the calls rely on.
\<close>

lemma return_twice_core:
  assumes rec: "findRecord recordId s = Some r"
    and open_loan: "status r \<noteq> Returned"
    and auth: "user r = userId \<or> role = Admin"
    and vr: "validRecord r"
    and time: "borrowDate r \<le> now"
    and bk: "findBook (book r) s = Some b"
    and vb: "validBook b"
    and out: "availableCopies b < totalCopies b"
  shows "returnBook_controller now userId role recordId s =
           (s\<lparr>loans := (loans s)[recordId := r\<lparr>returnDate := Some now, status := Returned\<rparr>],
              books := (books s)[book r := b\<lparr>availableCopies := availableCopies b + 1\<rparr>]\<rparr>,
            Inr (r\<lparr>returnDate := Some now, status := Returned\<rparr>))
       \<and> returnBook_controller now' userId role recordId
             (fst (returnBook_controller now userId role recordId s)) =
           (fst (returnBook_controller now userId role recordId s), Inl AlreadyReturned)
       \<and> findBook (book r)
             (fst (returnBook_controller now' userId role recordId
                (fst (returnBook_controller now userId role recordId s)))) =
           Some (b\<lparr>availableCopies := availableCopies b + 1\<rparr>)"
proof -
  let ?r1 = "r\<lparr>returnDate := Some now, status := Returned\<rparr>"
  let ?b1 = "b\<lparr>availableCopies := availableCopies b + 1\<rparr>"
  let ?s1 = "s\<lparr>loans := (loans s)[recordId := ?r1]\<rparr>"
  let ?s2 = "s\<lparr>loans := (loans s)[recordId := ?r1], books := (books s)[book r := ?b1]\<rparr>"
  from rec have len: "recordId < length (loans s)"
    by (simp add: findRecord_Some)
  from bk have blen: "book r < length (books s)" and bval: "books s ! book r = b"
    by (simp_all add: findBook_Some)
  have v1: "validRecord ?r1"
    using vr time by (simp add: validRecord_def)
  have sv: "saveRecord now recordId (returnBook now r) s = Inr (?r1, ?s1)"
    using v1 by (simp add: saveRecord_def returnBook_eq preSave_def Let_def)
  have fb: "findBook (book ?r1) ?s1 = Some b"
    using blen bval by (simp add: findBook_def)
  have rc: "snd (returnCopy b) = ?b1"
    using out by (simp add: returnCopy_def)
  have vb1: "validBook ?b1"
    using vb out by (simp add: validBook_def)
  have sb: "saveBook (book ?r1) ?b1 ?s1 = Inr ?s2"
    using vb1 by (simp add: saveBook_def)
  have first: "returnBook_controller now userId role recordId s = (?s2, Inr ?r1)"
    using rec open_loan auth sv fb rc sb
    by (auto simp add: returnBook_controller_def)
  have fr: "findRecord recordId ?s2 = Some ?r1"
    using len by (simp add: findRecord_def)
  have second: "returnBook_controller now' userId role recordId ?s2 = (?s2, Inl AlreadyReturned)"
    using fr auth by (auto simp add: returnBook_controller_def)
  have third: "findBook (book r) ?s2 = Some ?b1"
    using blen by (simp add: findBook_def)
  show ?thesis
    using first second third by simp
qed

text \<open>
  Claim C3. Returning the same loan twice in succession, by its owner or an administrator,
  succeeds the first time and fails the second time with AlreadyReturned; the second call
  leaves the store as the first one left it, and over the two calls the available copies
  of the book go up by exactly one.

  The loan is any record of a consistent store that is not yet Returned (Borrowed,
  Overdue or Lost), returned at a clock reading not before its borrow date; \<open>b\<close> names
  its book as stored before the calls.
\<close>

theorem return_twice:
  assumes c: "consistent s"
    and rec: "findRecord recordId s = Some r"
    and open_loan: "status r \<noteq> Returned"
    and auth: "user r = userId \<or> role = Admin"
    and time: "borrowDate r \<le> now"
    and bk: "findBook (book r) s = Some b"
  shows "returnBook_controller now userId role recordId s =
           (s\<lparr>loans := (loans s)[recordId := r\<lparr>returnDate := Some now, status := Returned\<rparr>],
              books := (books s)[book r := b\<lparr>availableCopies := availableCopies b + 1\<rparr>]\<rparr>,
            Inr (r\<lparr>returnDate := Some now, status := Returned\<rparr>))
       \<and> returnBook_controller now' userId role recordId
             (fst (returnBook_controller now userId role recordId s)) =
           (fst (returnBook_controller now userId role recordId s), Inl AlreadyReturned)
       \<and> findBook (book r)
             (fst (returnBook_controller now' userId role recordId
                (fst (returnBook_controller now userId role recordId s)))) =
           Some (b\<lparr>availableCopies := availableCopies b + 1\<rparr>)"
proof -
  from bk have b: "books s ! book r = b"
    by (simp add: findBook_Some)
  from consistent_copy_out [OF c rec open_loan] b
  have vr: "validRecord r" and vb: "validBook b"
    and out: "availableCopies b < totalCopies b"
    by simp_all
  from return_twice_core [OF rec open_loan auth vr time bk vb out]
  show ?thesis .
qed

text \<open>
  The example loan returned on day 19 and again on day 20.
\<close>

theorem return_twice_witness:
  "consistent exampleLibrary
   \<and> findRecord 0 exampleLibrary = Some exampleLoan
   \<and> status exampleLoan \<noteq> Returned
   \<and> findBook (book exampleLoan) exampleLibrary = Some exampleBook
   \<and> snd (returnBook_controller (19 * msPerDay) 0 Member 0 exampleLibrary) =
       Inr (exampleLoan\<lparr>returnDate := Some (19 * msPerDay), status := Returned\<rparr>)
   \<and> snd (returnBook_controller (20 * msPerDay) 0 Member 0
         (fst (returnBook_controller (19 * msPerDay) 0 Member 0 exampleLibrary))) =
       Inl AlreadyReturned
   \<and> findBook 0
         (fst (returnBook_controller (20 * msPerDay) 0 Member 0
           (fst (returnBook_controller (19 * msPerDay) 0 Member 0 exampleLibrary)))) =
       Some (exampleBook\<lparr>availableCopies := 1\<rparr>)"
proof -
  have h0: "consistent exampleLibrary"
    by (simp add: consistent_def exampleLibrary_def exampleLoan_def exampleBook_def
        newRecord_def validBook_def validRecord_def copiesOut_def unreturned_def msPerDay_def)
  have h1: "findRecord 0 exampleLibrary = Some exampleLoan"
    by (simp add: findRecord_def exampleLibrary_def)
  have h2: "status exampleLoan \<noteq> Returned"
    by (simp add: exampleLoan_def newRecord_def)
  have h3: "user exampleLoan = 0 \<or> Member = Admin"
    by (simp add: exampleLoan_def newRecord_def)
  have h5: "borrowDate exampleLoan \<le> 19 * msPerDay"
    by (simp add: exampleLoan_def newRecord_def msPerDay_def)
  have h6: "findBook (book exampleLoan) exampleLibrary = Some exampleBook"
    by (simp add: findBook_def exampleLibrary_def exampleLoan_def newRecord_def)
  have b0: "book exampleLoan = 0" "availableCopies exampleBook + 1 = 1"
    by (simp_all add: exampleLoan_def newRecord_def exampleBook_def)
  note T = return_twice [where now' = "20 * msPerDay", OF h0 h1 h2 h3 h5 h6]
  have c1: "snd (returnBook_controller (19 * msPerDay) 0 Member 0 exampleLibrary) =
       Inr (exampleLoan\<lparr>returnDate := Some (19 * msPerDay), status := Returned\<rparr>)"
    using conjunct1 [OF T] by simp
  have c2: "snd (returnBook_controller (20 * msPerDay) 0 Member 0
         (fst (returnBook_controller (19 * msPerDay) 0 Member 0 exampleLibrary))) =
       Inl AlreadyReturned"
    using conjunct1 [OF conjunct2 [OF T]] by simp
  have c3: "findBook 0
         (fst (returnBook_controller (20 * msPerDay) 0 Member 0
           (fst (returnBook_controller (19 * msPerDay) 0 Member 0 exampleLibrary)))) =
       Some (exampleBook\<lparr>availableCopies := 1\<rparr>)"
    using conjunct2 [OF conjunct2 [OF T]] b0 by simp
  from h0 h1 h2 h6 c1 c2 c3 show ?thesis by blast
qed

section \<open>The borrow limit\<close>

text \<open>
  A user with five active loans asks for a book that has no available copy. The
  availability check comes before the limit check, so the answer is Unavailable and not
  BorrowLimitReached.
\<close>

theorem borrow_limit_unavailable_first:
  "countDocuments (Match [UserIs 7, StatusIn [Borrowed, Overdue]]) (loans busyLibrary) = 5
   \<and> findBook 0 busyLibrary = Some exampleBook \<and> availableCopies exampleBook = 0
   \<and> borrowBook msPerDay 7 0 None busyLibrary = (busyLibrary, Inl Unavailable)"
  by (simp add: countDocuments_def busyLibrary_def newRecord_def borrowBook_def findBook_def
      exampleBook_def isAvailable_def)

text \<open>
  Claim C4, amended. A borrow attempt by a user who has five or more active loans (status
  Borrowed or Overdue) always fails and leaves the store unchanged. The controller checks
  the book first, then its availability, then a duplicate loan, then the limit: the
  failure is BorrowLimitReached when the book exists, is active, has an available copy and
  the user holds no active loan of it, and it is Unavailable when the book is active but
  has no available copy. The GraphQL mutation gives the same answer as the REST
  controller.
\<close>

theorem borrow_limit:
  assumes "countDocuments (Match [UserIs userId, StatusIn [Borrowed, Overdue]]) (loans s) \<ge> 5"
  shows "snd (borrowBook now userId bookId d s)
           \<in> {Inl NotFound, Inl Unavailable, Inl DuplicateLoan, Inl BorrowLimitReached}
       \<and> fst (borrowBook now userId bookId d s) = s
       \<and> (findBook bookId s = Some b \<and> isActive b \<and> availableCopies b > 0
            \<and> findOne (Match [UserIs userId, BookIs bookId, StatusIn [Borrowed, Overdue]])
                 (loans s) = None
          \<longrightarrow> borrowBook now userId bookId d s = (s, Inl BorrowLimitReached))
       \<and> (findBook bookId s = Some b \<and> isActive b \<and> availableCopies b \<le> 0
          \<longrightarrow> borrowBook now userId bookId d s = (s, Inl Unavailable))
       \<and> borrowBook_mutation now (Some (userId, role)) bookId d s =
           borrowBook now userId bookId d s"
  using assms
  by (auto simp add: borrowBook_def isAvailable_def borrowBook_mutation_eq
      split: option.splits)

text \<open>
  The same user asking for a book with a copy on the shelf.
\<close>

theorem borrow_limit_witness:
  "countDocuments (Match [UserIs 7, StatusIn [Borrowed, Overdue]])
      (loans (busyLibrary\<lparr>books := [openBook]\<rparr>)) \<ge> 5
   \<and> findBook 0 (busyLibrary\<lparr>books := [openBook]\<rparr>) = Some openBook
   \<and> borrowBook msPerDay 7 0 None (busyLibrary\<lparr>books := [openBook]\<rparr>) =
       (busyLibrary\<lparr>books := [openBook]\<rparr>, Inl BorrowLimitReached)"
proof -
  let ?s = "busyLibrary\<lparr>books := [openBook]\<rparr>"
  have h: "countDocuments (Match [UserIs 7, StatusIn [Borrowed, Overdue]]) (loans ?s) \<ge> 5"
    by (simp add: countDocuments_def busyLibrary_def newRecord_def)
  have b: "findBook 0 ?s = Some openBook"
    by (simp add: findBook_def)
  have p: "isActive openBook" "availableCopies openBook > 0"
    by (simp_all add: openBook_def)
  have n: "findOne (Match [UserIs 7, BookIs 0, StatusIn [Borrowed, Overdue]]) (loans ?s) = None"
    by (simp add: findOne_def busyLibrary_def newRecord_def)
  from borrow_limit [where now = msPerDay and bookId = 0 and d = None and b = openBook, OF h]
    h b p n
  show ?thesis by simp
qed

section \<open>Renewals\<close>

lemma borrowBook_renewals:
  "renewalsBounded s \<Longrightarrow> renewalsBounded (fst (borrowBook now u bk d s))"
  using borrowBook_loans [of now u bk d s]
  by (auto simp add: renewalsBounded_def preSave_fields newRecord_def)

lemma returnBook_controller_renewals:
  "renewalsBounded s \<Longrightarrow> renewalsBounded (fst (returnBook_controller now u role i s))"
  using returnBook_controller_loans [of now u role i s]
  by (auto simp add: renewalsBounded_def findRecord_Some list_all_length nth_list_update)

lemma renewBook_controller_renewals:
  assumes "renewalsBounded s"
  shows "renewalsBounded (fst (renewBook_controller now u i s))"
proof -
  from renewBook_controller_loans [of now u i s]
  consider "loans (fst (renewBook_controller now u i s)) = loans s"
    | r r' where "findRecord i s = Some r" "renewBook r = Inr r'"
        "loans (fst (renewBook_controller now u i s)) = (loans s)[i := preSave now r']"
    by blast
  then show ?thesis
  proof cases
    case 1
    with assms show ?thesis by (simp add: renewalsBounded_def)
  next
    case 2
    from 2(2) have "renewalCount (preSave now r') \<le> 3"
      by (auto simp add: renewBook_Inr preSave_fields)
    with assms 2(3) show ?thesis
      by (simp add: renewalsBounded_def list_all_update)
  qed
qed

lemma serve_renewals: "renewalsBounded s \<Longrightarrow> renewalsBounded (serve q s)"
proof (cases q)
  case (Pair now req)
  assume "renewalsBounded s"
  then show ?thesis
    unfolding Pair
    by (cases req)
      (simp_all add: borrowBook_renewals returnBook_controller_renewals
        renewBook_controller_renewals)
qed

lemma serveAll_renewals: "renewalsBounded s \<Longrightarrow> renewalsBounded (serveAll reqs s)"
  unfolding serveAll_def
  by (induction reqs arbitrary: s) (simp_all add: serve_renewals)

text \<open>
  Claim C5. Renewing a loan that has already been renewed three times (or more), with
  status Borrowed or Overdue and the owner acting, fails with RenewalLimitReached and
  leaves the store, and so the due date and renewal count of the loan, unchanged.
  Consequently the renewal count never exceeds three: a store in which no record has more
  than three renewals stays so under every sequence of borrow, return and renew requests.
\<close>

theorem renewal_limit:
  assumes "findRecord recordId s = Some r"
    and "user r = userId"
    and "status r = Borrowed \<or> status r = Overdue"
    and "renewalCount r \<ge> 3"
  shows "renewBook_controller now userId recordId s = (s, Inl RenewalLimitReached)
       \<and> findRecord recordId (fst (renewBook_controller now userId recordId s)) = Some r
       \<and> (renewalsBounded s \<longrightarrow> renewalsBounded (serveAll reqs s))"
  using assms
  by (auto simp add: renewBook_controller_def renewBook_def serveAll_renewals)

text \<open>
  A loan with three renewals, and two further attempts to renew it.
\<close>

theorem renewal_limit_witness:
  "findRecord 0 (exampleLibrary\<lparr>loans := [exampleLoan\<lparr>renewalCount := 3\<rparr>]\<rparr>) =
       Some (exampleLoan\<lparr>renewalCount := 3\<rparr>)
   \<and> renewBook_controller msPerDay 0 0 (exampleLibrary\<lparr>loans := [exampleLoan\<lparr>renewalCount := 3\<rparr>]\<rparr>) =
       (exampleLibrary\<lparr>loans := [exampleLoan\<lparr>renewalCount := 3\<rparr>]\<rparr>, Inl RenewalLimitReached)
   \<and> renewalsBounded (exampleLibrary\<lparr>loans := [exampleLoan\<lparr>renewalCount := 3\<rparr>]\<rparr>)
   \<and> renewalsBounded
        (serveAll [(msPerDay, Renew 0 0), (2 * msPerDay, Renew 0 0)]
           (exampleLibrary\<lparr>loans := [exampleLoan\<lparr>renewalCount := 3\<rparr>]\<rparr>))"
proof -
  let ?s = "exampleLibrary\<lparr>loans := [exampleLoan\<lparr>renewalCount := 3\<rparr>]\<rparr>"
  have h1: "findRecord 0 ?s = Some (exampleLoan\<lparr>renewalCount := 3\<rparr>)"
    by (simp add: findRecord_def)
  have h2: "user (exampleLoan\<lparr>renewalCount := 3\<rparr>) = 0"
    by (simp add: exampleLoan_def newRecord_def)
  have h3: "status (exampleLoan\<lparr>renewalCount := 3\<rparr>) = Borrowed
            \<or> status (exampleLoan\<lparr>renewalCount := 3\<rparr>) = Overdue"
    by (simp add: exampleLoan_def newRecord_def)
  have h4: "renewalCount (exampleLoan\<lparr>renewalCount := 3\<rparr>) \<ge> 3"
    by simp
  have h5: "renewalsBounded ?s"
    by (simp add: renewalsBounded_def)
  from renewal_limit [where now = msPerDay
      and reqs = "[(msPerDay, Renew 0 0), (2 * msPerDay, Renew 0 0)]", OF h1 h2 h3 h4] h1 h5
  show ?thesis by simp
qed

text \<open>
  A Borrowed loan due on day 14 is renewed on day 40. The new due date, day 28, is still
  in the past, and the \<^verbatim>\<open>pre('save')\<close> hook stores the record as Overdue: the renewal
  changes the status as well as the due date and the renewal count.
\<close>

theorem renew_flips_status:
  "status exampleLoan = Borrowed \<and> renewalCount exampleLoan < 3 \<and> user exampleLoan = 0
   \<and> renewBook_controller (40 * msPerDay) 0 0 exampleLibrary =
       (exampleLibrary\<lparr>loans := [exampleLoan\<lparr>dueDate := 28 * msPerDay, renewalCount := 1,
                                    status := Overdue\<rparr>]\<rparr>,
        Inr (exampleLoan\<lparr>dueDate := 28 * msPerDay, renewalCount := 1, status := Overdue\<rparr>))"
  by (simp add: renewBook_controller_def findRecord_def exampleLibrary_def
      exampleLoan_def newRecord_def renewBook_def saveRecord_def
      validRecord_def preSave_def isOverdue_def Let_def msPerDay_def)

text \<open>
  Claim C6, amended. Renewing a loan with status Borrowed or Overdue and fewer than three
  renewals, by its owner, succeeds (the stored record satisfying its schema). The record is
  stored with the due date fourteen days later and the renewal count one higher; its status
  becomes Overdue when it was Borrowed and the clock is already past the new due date, and
  is unchanged otherwise, so an Overdue status is never reset to Borrowed. The fine and
  every other field of the record, every other record and the books are unchanged.
\<close>

theorem renew_success:
  assumes rec: "findRecord recordId s = Some r"
    and own: "user r = userId"
    and st: "status r = Borrowed \<or> status r = Overdue"
    and cnt: "renewalCount r < 3"
    and vr: "validRecord r"
  shows "renewBook_controller now userId recordId s =
           (s\<lparr>loans := (loans s)[recordId :=
                r\<lparr>dueDate := dueDate r + 14 * msPerDay,
                  renewalCount := renewalCount r + 1,
                  status := (if status r = Borrowed \<and> now > dueDate r + 14 * msPerDay
                             then Overdue else status r)\<rparr>]\<rparr>,
            Inr (r\<lparr>dueDate := dueDate r + 14 * msPerDay,
                  renewalCount := renewalCount r + 1,
                  status := (if status r = Borrowed \<and> now > dueDate r + 14 * msPerDay
                             then Overdue else status r)\<rparr>))"
proof -
  let ?r' = "r\<lparr>dueDate := dueDate r + 14 * msPerDay, renewalCount := renewalCount r + 1\<rparr>"
  have rn: "renewBook r = Inr ?r'"
    using cnt by (simp add: renewBook_Inr)
  have v: "validRecord ?r'"
    using vr cnt by (auto simp add: validRecord_def msPerDay_def split: option.splits)
  have ps: "preSave now ?r' =
      r\<lparr>dueDate := dueDate r + 14 * msPerDay, renewalCount := renewalCount r + 1,
        status := (if status r = Borrowed \<and> now > dueDate r + 14 * msPerDay
                   then Overdue else status r)\<rparr>"
    using st by (auto simp add: preSave_def isOverdue_def)
  have sv: "saveRecord now recordId ?r' s =
      Inr (preSave now ?r', s\<lparr>loans := (loans s)[recordId := preSave now ?r']\<rparr>)"
    using v by (simp add: saveRecord_def Let_def)
  show ?thesis
    using rec own st rn sv unfolding ps [symmetric]
    by (auto simp add: renewBook_controller_def)
qed

text \<open>
  The example loan renewed on day 10: due on day 28, one renewal, still Borrowed.
\<close>

theorem renew_success_witness:
  "findRecord 0 exampleLibrary = Some exampleLoan
   \<and> status exampleLoan = Borrowed \<and> renewalCount exampleLoan < 3 \<and> validRecord exampleLoan
   \<and> snd (renewBook_controller (10 * msPerDay) 0 0 exampleLibrary) =
       Inr (exampleLoan\<lparr>dueDate := 28 * msPerDay, renewalCount := 1\<rparr>)"
proof -
  have h1: "findRecord 0 exampleLibrary = Some exampleLoan"
    by (simp add: findRecord_def exampleLibrary_def)
  have h2: "user exampleLoan = 0"
    by (simp add: exampleLoan_def newRecord_def)
  have h3: "status exampleLoan = Borrowed"
    by (simp add: exampleLoan_def newRecord_def)
  have h4: "renewalCount exampleLoan < 3"
    by (simp add: exampleLoan_def newRecord_def)
  have h5: "validRecord exampleLoan"
    by (simp add: validRecord_def exampleLoan_def newRecord_def msPerDay_def)
  have e: "dueDate exampleLoan + 14 * msPerDay = 28 * msPerDay"
    "renewalCount exampleLoan + 1 = 1" "\<not> 10 * msPerDay > 28 * msPerDay"
    by (simp_all add: exampleLoan_def newRecord_def msPerDay_def)
  from renew_success [where now = "10 * msPerDay", OF h1 h2 disjI1 [OF h3] h4 h5] h1 h3 h4 h5
  show ?thesis by (simp add: e)
qed

section \<open>Duplicate loans\<close>

text \<open>
  A user whose only loan of a book has status Lost, with no return date, borrows the same
  book again: the duplicate check looks for the statuses Borrowed and Overdue only, and
  the borrow succeeds.
\<close>

theorem lost_loan_does_not_block:
  "exampleLoan\<lparr>status := Lost\<rparr> \<in> set (loans lostLibrary)
   \<and> user (exampleLoan\<lparr>status := Lost\<rparr>) = 0 \<and> book (exampleLoan\<lparr>status := Lost\<rparr>) = 0
   \<and> returnDate (exampleLoan\<lparr>status := Lost\<rparr>) = None
   \<and> borrowBook (20 * msPerDay) 0 0 None lostLibrary =
       (\<lparr>books = [openBook\<lparr>availableCopies := 0, borrowCount := 2\<rparr>],
         loans = [exampleLoan\<lparr>status := Lost\<rparr>, newRecord (20 * msPerDay) 0 0 (34 * msPerDay)]\<rparr>,
        Inr (newRecord (20 * msPerDay) 0 0 (34 * msPerDay)))"
  by (simp add: lostLibrary_def exampleLoan_def openBook_def newRecord_def borrowBook_def
      findBook_def isAvailable_def findOne_def countDocuments_def createRecord_def
      validRecord_def preSave_def isOverdue_def borrowCopy_def saveBook_def validBook_def
      Let_def msPerDay_def)

lemma borrowBook_keeps_unique:
  assumes "atMostOneActive s"
  shows "atMostOneActive (fst (borrowBook now u bk d s))"
proof -
  let ?r = "preSave now (newRecord now u bk (case d of Some x \<Rightarrow> x | None \<Rightarrow> now + 14 * 24 * 60 * 60 * 1000))"
  have "loans (fst (borrowBook now u bk d s)) = loans s
      \<or> (loans (fst (borrowBook now u bk d s)) = loans s @ [?r]
         \<and> findOne (Match [UserIs u, BookIs bk, StatusIn [Borrowed, Overdue]]) (loans s) = None)"
    by (auto simp add: borrowBook_def createRecord_def saveBook_def Let_def
        split: option.splits sum.splits if_splits prod.splits)
  then show ?thesis
  proof
    assume "loans (fst (borrowBook now u bk d s)) = loans s"
    with assms show ?thesis by (simp add: atMostOneActive_def)
  next
    assume h: "loans (fst (borrowBook now u bk d s)) = loans s @ [?r]
         \<and> findOne (Match [UserIs u, BookIs bk, StatusIn [Borrowed, Overdue]]) (loans s) = None"
    then have none: "\<forall>x\<in>set (loans s). \<not> (user x = u \<and> book x = bk \<and> activeLoan x)"
      by (simp add: findOne_None matches_duplicate del: matches.simps)
    have ub: "user ?r = u" "book ?r = bk"
      by (simp_all add: preSave_fields newRecord_def)
    from none have "(u, bk) \<notin> set (map (\<lambda>r. (user r, book r)) (filter activeLoan (loans s)))"
      by auto
    with assms h ub show ?thesis
      by (simp add: atMostOneActive_def)
  qed
qed

text \<open>
  Claim C7, amended. If the user already holds a loan of this book with status Borrowed or
  Overdue, a borrow attempt by that user for that book fails and leaves the store
  unchanged: with DuplicateLoan when the book exists, is active and has an available copy,
  and with NotFound or Unavailable otherwise, since those checks come first. A record with
  status Lost does not count. Every borrow request keeps the invariant that a (user, book)
  pair has at most one record with status Borrowed or Overdue. The GraphQL mutation gives
  the same answer as the REST controller.
\<close>

theorem duplicate_loan:
  assumes "r \<in> set (loans s)"
    and "user r = userId"
    and "book r = bookId"
    and "status r = Borrowed \<or> status r = Overdue"
  shows "snd (borrowBook now userId bookId d s)
           \<in> {Inl NotFound, Inl Unavailable, Inl DuplicateLoan}
       \<and> fst (borrowBook now userId bookId d s) = s
       \<and> (findBook bookId s = Some b \<and> isActive b \<and> availableCopies b > 0
          \<longrightarrow> borrowBook now userId bookId d s = (s, Inl DuplicateLoan))
       \<and> borrowBook_mutation now (Some (userId, role)) bookId d s =
           borrowBook now userId bookId d s
       \<and> (atMostOneActive s \<longrightarrow> atMostOneActive (fst (borrowBook now' u' b' d' s)))"
proof -
  have "matches (Match [UserIs userId, BookIs bookId, StatusIn [Borrowed, Overdue]]) r"
    using assms by auto
  with assms(1) have dup:
    "findOne (Match [UserIs userId, BookIs bookId, StatusIn [Borrowed, Overdue]]) (loans s) \<noteq> None"
    unfolding findOne_None by blast
  show ?thesis
    using dup borrowBook_keeps_unique [of s now' u' b' d']
    by (auto simp add: borrowBook_def isAvailable_def borrowBook_mutation_eq
        split: option.splits)
qed

text \<open>
  The holder of the example loan asks for the same book again; another user borrows it.
\<close>

theorem duplicate_loan_witness:
  "exampleLoan \<in> set (loans (exampleLibrary\<lparr>books := [openBook]\<rparr>))
   \<and> user exampleLoan = 0 \<and> book exampleLoan = 0 \<and> status exampleLoan = Borrowed
   \<and> borrowBook msPerDay 0 0 None (exampleLibrary\<lparr>books := [openBook]\<rparr>) =
       (exampleLibrary\<lparr>books := [openBook]\<rparr>, Inl DuplicateLoan)
   \<and> atMostOneActive (exampleLibrary\<lparr>books := [openBook]\<rparr>)
   \<and> atMostOneActive (fst (borrowBook msPerDay 1 0 None (exampleLibrary\<lparr>books := [openBook]\<rparr>)))"
proof -
  let ?s = "exampleLibrary\<lparr>books := [openBook]\<rparr>"
  have h1: "exampleLoan \<in> set (loans ?s)"
    by (simp add: exampleLibrary_def)
  have h2: "user exampleLoan = 0" and h3: "book exampleLoan = 0"
    and h4: "status exampleLoan = Borrowed"
    by (simp_all add: exampleLoan_def newRecord_def)
  have b: "findBook 0 ?s = Some openBook"
    by (simp add: findBook_def)
  have p: "isActive openBook" "availableCopies openBook > 0"
    by (simp_all add: openBook_def)
  have u: "atMostOneActive ?s"
    by (simp add: atMostOneActive_def exampleLibrary_def)
  from duplicate_loan [where now = msPerDay and d = None and b = openBook
      and now' = msPerDay and u' = 1 and b' = 0 and d' = None, OF h1 h2 h3 disjI1 [OF h4]]
    h1 h2 h3 h4 b p u
  show ?thesis by simp
qed

section \<open>A successful borrow\<close>

text \<open>
  Claim C8. For an active book with an available copy (the stored book satisfying its
  schema), a user with no active loan of it and fewer than five active loans, and a due
  date that is absent or in the future, the borrow succeeds: it appends a record with
  status Borrowed, borrow date now, no renewals and no fine, whose due date is the supplied
  date, or now plus fourteen days when none is supplied; it lowers the available copies of
  the book by exactly one and raises its borrow count by exactly one; nothing else
  changes. The GraphQL mutation does the same. The record is written out field by field,
  in the store and in the answer; the last four conjuncts read the due date and the status
  of the stored record and the two counters of the stored book.
\<close>

theorem borrow_success:
  assumes bk: "findBook bookId s = Some b"
    and act: "isActive b"
    and avail: "availableCopies b > 0"
    and vb: "validBook b"
    and nodup: "findOne (Match [UserIs userId, BookIs bookId, StatusIn [Borrowed, Overdue]])
                  (loans s) = None"
    and under: "countDocuments (Match [UserIs userId, StatusIn [Borrowed, Overdue]]) (loans s) < 5"
    and future: "case d of None \<Rightarrow> True | Some x \<Rightarrow> x > now"
  shows "borrowBook now userId bookId d s =
           (s\<lparr>loans := loans s @
                 [\<lparr>user = userId, book = bookId, borrowDate = now,
                   dueDate = (case d of Some x \<Rightarrow> x | None \<Rightarrow> now + 14 * msPerDay),
                   returnDate = None, status = Borrowed, renewalCount = 0,
                   fine = \<lparr>amount = 0, paid = False, paidDate = None\<rparr>\<rparr>],
              books := (books s)[bookId :=
                 b\<lparr>availableCopies := availableCopies b - 1,
                   borrowCount := borrowCount b + 1\<rparr>]\<rparr>,
            Inr \<lparr>user = userId, book = bookId, borrowDate = now,
                 dueDate = (case d of Some x \<Rightarrow> x | None \<Rightarrow> now + 14 * msPerDay),
                 returnDate = None, status = Borrowed, renewalCount = 0,
                 fine = \<lparr>amount = 0, paid = False, paidDate = None\<rparr>\<rparr>)
       \<and> borrowBook_mutation now (Some (userId, role)) bookId d s =
           borrowBook now userId bookId d s
       \<and> findRecord (length (loans s)) (fst (borrowBook now userId bookId d s)) =
           Some \<lparr>user = userId, book = bookId, borrowDate = now,
                 dueDate = (case d of Some x \<Rightarrow> x | None \<Rightarrow> now + 14 * msPerDay),
                 returnDate = None, status = Borrowed, renewalCount = 0,
                 fine = \<lparr>amount = 0, paid = False, paidDate = None\<rparr>\<rparr>
       \<and> dueDate (last (loans (fst (borrowBook now userId bookId d s)))) =
           (case d of Some x \<Rightarrow> x | None \<Rightarrow> now + 14 * msPerDay)
       \<and> status (last (loans (fst (borrowBook now userId bookId d s)))) = Borrowed
       \<and> findBook bookId (fst (borrowBook now userId bookId d s)) =
           Some (b\<lparr>availableCopies := availableCopies b - 1,
                   borrowCount := borrowCount b + 1\<rparr>)
       \<and> length (loans (fst (borrowBook now userId bookId d s))) = length (loans s) + 1"
proof -
  let ?due = "case d of Some x \<Rightarrow> x | None \<Rightarrow> now + 14 * msPerDay"
  let ?r = "\<lparr>user = userId, book = bookId, borrowDate = now, dueDate = ?due,
             returnDate = None, status = Borrowed, renewalCount = 0,
             fine = \<lparr>amount = 0, paid = False, paidDate = None\<rparr>\<rparr>"
  let ?b = "b\<lparr>availableCopies := availableCopies b - 1, borrowCount := borrowCount b + 1\<rparr>"
  let ?s2 = "s\<lparr>loans := loans s @ [?r], books := (books s)[bookId := ?b]\<rparr>"
  have due: "(case d of Some x \<Rightarrow> x | None \<Rightarrow> now + 14 * 24 * 60 * 60 * 1000) = ?due"
    by (cases d) (simp_all add: msPerDay_def)
  have nr: "newRecord now userId bookId ?due = ?r"
    by (simp add: newRecord_def)
  have later: "?due > now"
    using future by (cases d) (simp_all add: msPerDay_def)
  have v: "validRecord ?r"
    using later by (simp add: validRecord_def)
  have ps: "preSave now ?r = ?r"
    using later by (simp add: preSave_def isOverdue_def)
  have cr: "createRecord now (newRecord now userId bookId ?due) s =
      Inr (?r, s\<lparr>loans := loans s @ [?r]\<rparr>)"
    unfolding nr using v ps by (simp add: createRecord_def Let_def)
  have bc: "snd (borrowCopy b) = ?b"
    using avail by (simp add: borrowCopy_def)
  have vb': "validBook ?b"
    using vb avail by (simp add: validBook_def)
  have first: "borrowBook now userId bookId d s = (?s2, Inr ?r)"
    using bk act avail nodup under cr bc vb'
    unfolding borrowBook_def due
    by (simp add: isAvailable_def saveBook_def Let_def)
  from bk have blen: "bookId < length (books s)"
    by (simp add: findBook_Some)
  have st: "fst (borrowBook now userId bookId d s) = ?s2"
    using first by simp
  have rec: "findRecord (length (loans s)) ?s2 = Some ?r"
    by (simp add: findRecord_def)
  have dd: "dueDate (last (loans ?s2)) = ?due"
    by simp
  have ss: "status (last (loans ?s2)) = Borrowed"
    by simp
  have fb: "findBook bookId ?s2 = Some ?b"
    using blen by (simp add: findBook_def)
  have ln: "length (loans ?s2) = length (loans s) + 1"
    by simp
  show ?thesis
    unfolding st using first rec dd ss fb ln
    by (simp only: borrowBook_mutation_eq simp_thms)
qed

text \<open>
  A first loan of a book with one copy on the shelf, served on day 1: without a due date
  the record is due on day 15, with day 2 supplied it is due on day 2.
\<close>

theorem borrow_success_witness:
  "findBook 0 \<lparr>books = [openBook], loans = []\<rparr> = Some openBook
   \<and> isActive openBook \<and> availableCopies openBook > 0 \<and> validBook openBook
   \<and> borrowBook msPerDay 3 0 None \<lparr>books = [openBook], loans = []\<rparr> =
       (\<lparr>books = [openBook\<lparr>availableCopies := 0, borrowCount := 2\<rparr>],
         loans = [\<lparr>user = 3, book = 0, borrowDate = msPerDay, dueDate = 15 * msPerDay,
                   returnDate = None, status = Borrowed, renewalCount = 0,
                   fine = \<lparr>amount = 0, paid = False, paidDate = None\<rparr>\<rparr>]\<rparr>,
        Inr \<lparr>user = 3, book = 0, borrowDate = msPerDay, dueDate = 15 * msPerDay,
             returnDate = None, status = Borrowed, renewalCount = 0,
             fine = \<lparr>amount = 0, paid = False, paidDate = None\<rparr>\<rparr>)
   \<and> borrowBook msPerDay 3 0 (Some (2 * msPerDay)) \<lparr>books = [openBook], loans = []\<rparr> =
       (\<lparr>books = [openBook\<lparr>availableCopies := 0, borrowCount := 2\<rparr>],
         loans = [\<lparr>user = 3, book = 0, borrowDate = msPerDay, dueDate = 2 * msPerDay,
                   returnDate = None, status = Borrowed, renewalCount = 0,
                   fine = \<lparr>amount = 0, paid = False, paidDate = None\<rparr>\<rparr>]\<rparr>,
        Inr \<lparr>user = 3, book = 0, borrowDate = msPerDay, dueDate = 2 * msPerDay,
             returnDate = None, status = Borrowed, renewalCount = 0,
             fine = \<lparr>amount = 0, paid = False, paidDate = None\<rparr>\<rparr>)
   \<and> dueDate (last (loans (fst (borrowBook msPerDay 3 0 (Some (2 * msPerDay))
         \<lparr>books = [openBook], loans = []\<rparr>)))) = 2 * msPerDay
   \<and> dueDate (last (loans (fst (borrowBook msPerDay 3 0 None
         \<lparr>books = [openBook], loans = []\<rparr>)))) = 15 * msPerDay"
proof -
  let ?s = "\<lparr>books = [openBook], loans = []\<rparr>"
  have h1: "findBook 0 ?s = Some openBook"
    by (simp add: findBook_def)
  have h2: "isActive openBook" and h3: "availableCopies openBook > 0"
    and h4: "validBook openBook"
    by (simp_all add: openBook_def validBook_def)
  have h5: "findOne (Match [UserIs 3, BookIs 0, StatusIn [Borrowed, Overdue]]) (loans ?s) = None"
    by (simp add: findOne_def)
  have h6: "countDocuments (Match [UserIs 3, StatusIn [Borrowed, Overdue]]) (loans ?s) < 5"
    by (simp add: countDocuments_def)
  have h7: "case None :: date option of None \<Rightarrow> True | Some x \<Rightarrow> x > msPerDay"
    by simp
  have h8: "case Some (2 * msPerDay) of None \<Rightarrow> True | Some x \<Rightarrow> x > msPerDay"
    by (simp add: msPerDay_def)
  have e: "msPerDay + 14 * msPerDay = 15 * msPerDay"
    "availableCopies openBook - 1 = 0" "borrowCount openBook + 1 = 2"
    by (simp_all add: openBook_def)
  note N = borrow_success [where role = Member, OF h1 h2 h3 h4 h5 h6 h7]
  note S = borrow_success [where role = Member, OF h1 h2 h3 h4 h5 h6 h8]
  have n1: "borrowBook msPerDay 3 0 None ?s =
       (\<lparr>books = [openBook\<lparr>availableCopies := 0, borrowCount := 2\<rparr>],
         loans = [\<lparr>user = 3, book = 0, borrowDate = msPerDay, dueDate = 15 * msPerDay,
                   returnDate = None, status = Borrowed, renewalCount = 0,
                   fine = \<lparr>amount = 0, paid = False, paidDate = None\<rparr>\<rparr>]\<rparr>,
        Inr \<lparr>user = 3, book = 0, borrowDate = msPerDay, dueDate = 15 * msPerDay,
             returnDate = None, status = Borrowed, renewalCount = 0,
             fine = \<lparr>amount = 0, paid = False, paidDate = None\<rparr>\<rparr>)"
    using conjunct1 [OF N] by (simp add: e)
  have s1: "borrowBook msPerDay 3 0 (Some (2 * msPerDay)) ?s =
       (\<lparr>books = [openBook\<lparr>availableCopies := 0, borrowCount := 2\<rparr>],
         loans = [\<lparr>user = 3, book = 0, borrowDate = msPerDay, dueDate = 2 * msPerDay,
                   returnDate = None, status = Borrowed, renewalCount = 0,
                   fine = \<lparr>amount = 0, paid = False, paidDate = None\<rparr>\<rparr>]\<rparr>,
        Inr \<lparr>user = 3, book = 0, borrowDate = msPerDay, dueDate = 2 * msPerDay,
             returnDate = None, status = Borrowed, renewalCount = 0,
             fine = \<lparr>amount = 0, paid = False, paidDate = None\<rparr>\<rparr>)"
    using conjunct1 [OF S] by (simp add: e)
  have n2: "dueDate (last (loans (fst (borrowBook msPerDay 3 0 None ?s)))) = 15 * msPerDay"
    using conjunct1 [OF conjunct2 [OF conjunct2 [OF conjunct2 [OF N]]]] by (simp add: e)
  have s2: "dueDate (last (loans (fst (borrowBook msPerDay 3 0 (Some (2 * msPerDay)) ?s)))) =
      2 * msPerDay"
    using conjunct1 [OF conjunct2 [OF conjunct2 [OF conjunct2 [OF S]]]] by simp
  from h1 h2 h3 h4 n1 s1 n2 s2 show ?thesis by blast
qed

section \<open>The overdue query\<close>






section \<open>The fine computation\<close>

text \<open>
  \<^verbatim>\<open>calculateFine\<close> has no evaluation-time parameter: it reads the current clock. The
  same unchanged loan gives 5 on day 19 and 6 on day 20, so the result does depend on the
  ambient clock.
\<close>

theorem fine_depends_on_clock:
  "calculateFine (19 * msPerDay) exampleLoan = 5
   \<and> calculateFine (20 * msPerDay) exampleLoan = 6
   \<and> calculateFine (19 * msPerDay) exampleLoan \<noteq> calculateFine (20 * msPerDay) exampleLoan"
  by (simp add: calculateFine_def daysOverdue_def isOverdue_def ceilDays_def exampleLoan_def
      newRecord_def msPerDay_def)

text \<open>
  Claim C10, amended. The fine computation is a function of the loan and of the clock
  reading at which it is evaluated, which stands in for \<open>asOf\<close>: for the same loan and
  the same reading it yields the same amount. That amount is the number of days from the
  due date to the reading, rounded up, when the status is Borrowed or Overdue and the
  reading is past the due date, and zero otherwise; it is never negative, and it depends
  on no part of the loan other than its status and due date. The computation returns a
  number and leaves the loan as it is.
\<close>

theorem fine_function_of_loan_and_clock:
  "calculateFine now r =
     (if (status r = Borrowed \<or> status r = Overdue) \<and> now > dueDate r
      then ceilDays (now - dueDate r) else 0)
   \<and> (status r' = status r \<and> dueDate r' = dueDate r \<longrightarrow>
        calculateFine now r' = calculateFine now r)
   \<and> 0 \<le> calculateFine now r"
proof -
  have closed: "calculateFine now x =
     (if (status x = Borrowed \<or> status x = Overdue) \<and> now > dueDate x
      then ceilDays (now - dueDate x) else 0)" for x
    by (cases "status x") (simp_all add: calculateFine_def daysOverdue_def isOverdue_def)
  have nonneg: "0 \<le> ceilDays d" if "0 \<le> d" for d
  proof -
    have "(- d) div msPerDay \<le> 0"
      using that by (intro div_nonpos_pos_le0) (simp_all add: msPerDay_def)
    then show ?thesis by (simp add: ceilDays_def)
  qed
  show ?thesis
    using closed [of r] closed [of r'] nonneg [of "now - dueDate r"] by simp
qed

text \<open>
  Two loans that differ only in their user, one millisecond into the sixth overdue day.
\<close>

theorem fine_function_witness:
  "status (exampleLoan\<lparr>user := 9\<rparr>) = status exampleLoan
   \<and> dueDate (exampleLoan\<lparr>user := 9\<rparr>) = dueDate exampleLoan
   \<and> calculateFine (19 * msPerDay + 1) (exampleLoan\<lparr>user := 9\<rparr>) =
       calculateFine (19 * msPerDay + 1) exampleLoan
   \<and> calculateFine (19 * msPerDay + 1) exampleLoan = 6"
proof -
  have v: "ceilDays (19 * msPerDay + 1 - dueDate exampleLoan) = 6"
    "status exampleLoan = Borrowed" "19 * msPerDay + 1 > dueDate exampleLoan"
    by (simp_all add: ceilDays_def exampleLoan_def newRecord_def msPerDay_def)
  from fine_function_of_loan_and_clock
    [of "19 * msPerDay + 1" exampleLoan "exampleLoan\<lparr>user := 9\<rparr>"] v
  show ?thesis by simp
qed

end
